theory Spec2Isabelle
  imports Main
begin

section \<open>JavaScript strings and arrays\<close>

text \<open>
  Strings are lists of code units; a \<^typ>\<open>char\<close> is read as a code unit below 256.
  \<open>isSpace\<close> is the class \<^verbatim>\<open>\s\<close> of a regular expression, which is also the set of
  characters removed by \<^verbatim>\<open>String.prototype.trim\<close>, restricted to that range: TAB, LF, VT, FF,
  CR, SPACE and NO-BREAK SPACE.
\<close>

definition isSpace :: "char \<Rightarrow> bool" where
  "isSpace c \<longleftrightarrow>
     c = CHR 0x09 \<or> c = CHR 0x0A \<or> c = CHR 0x0B \<or> c = CHR 0x0C \<or> c = CHR 0x0D
       \<or> c = CHR 0x20 \<or> c = CHR 0xA0"

text \<open>\<^verbatim>\<open>s.trim()\<close>\<close>

definition js_trim :: "string \<Rightarrow> string" where
  "js_trim s = rev (dropWhile isSpace (rev (dropWhile isSpace s)))"

text \<open>\<^verbatim>\<open>s.split(c)\<close> for a one-character separator: \<^verbatim>\<open>"".split(",")\<close> is \<^verbatim>\<open>[""]\<close>.\<close>

fun js_split :: "char \<Rightarrow> string \<Rightarrow> string list" where
  "js_split c [] = [[]]"
| "js_split c (x # xs) =
     (if x = c then [] # js_split c xs
      else (let rest = js_split c xs in (x # hd rest) # tl rest))"

text \<open>\<^verbatim>\<open>xs.join(c)\<close>\<close>

fun js_join :: "char \<Rightarrow> string list \<Rightarrow> string" where
  "js_join c [] = []"
| "js_join c [x] = x"
| "js_join c (x # y # ys) = x @ c # js_join c (y # ys)"

text \<open>\<^verbatim>\<open>xs.indexOf(v)\<close>, with strict equality: the first index of \<open>v\<close>, or \<open>-1\<close>.\<close>

fun indexOf :: "'a list \<Rightarrow> 'a \<Rightarrow> int" where
  "indexOf [] v = - 1"
| "indexOf (x # xs) v =
     (if x = v then 0 else (let i = indexOf xs v in if i = - 1 then - 1 else i + 1))"

text \<open>\<^verbatim>\<open>s.replace(/\s/, '')\<close>: the pattern has no \<^verbatim>\<open>g\<close> flag, so one match is replaced.\<close>

fun remove_first_space :: "string \<Rightarrow> string" where
  "remove_first_space [] = []"
| "remove_first_space (x # xs) = (if isSpace x then xs else x # remove_first_space xs)"

text \<open>\<^verbatim>\<open>s.replace(c, d)\<close> with a string pattern: the first occurrence is replaced.\<close>

fun replace_first :: "char \<Rightarrow> char \<Rightarrow> string \<Rightarrow> string" where
  "replace_first c d [] = []"
| "replace_first c d (x # xs) = (if x = c then d # xs else x # replace_first c d xs)"

section \<open>The command line\<close>

text \<open>
  \<^verbatim>\<open>cli.option(name)\<close> is a string or \<^verbatim>\<open>undefined\<close>. A value is truthy when it is a
  non-empty string; \<^verbatim>\<open>null\<close> and \<^verbatim>\<open>undefined\<close> are both \<open>None\<close>.
\<close>

type_synonym cli = "string \<Rightarrow> string option"

definition truthy :: "string option \<Rightarrow> bool" where
  "truthy v = (case v of None \<Rightarrow> False | Some s \<Rightarrow> s \<noteq> [])"

section \<open>Parsing targets from the command line\<close>

text \<open>
  \<^verbatim>\<open>_getTargets(cli, defaults, strict)\<close>. The callers that leave \<open>strict\<close> out pass
  \<^verbatim>\<open>undefined\<close>, which is \<open>False\<close> here.
\<close>

definition getTargets :: "cli \<Rightarrow> string list \<Rightarrow> bool \<Rightarrow> string list" where
  "getTargets cli defaults strict =
     (let target = cli ''target'';
          result =
            (case target of
               None \<Rightarrow> defaults
             | Some t \<Rightarrow>
                 if t = [] then defaults
                 else map the (filter truthy (map (\<lambda>iter.
                        let val = js_trim iter
                        in if strict
                           then (if indexOf defaults val = - 1 then None else Some val)
                           else Some val) (js_split CHR '','' t))))
      in if strict then (if result = [] then defaults else result) else result)"

text \<open>
  Two readings of a given, non-empty option value, to compare with \<open>getTargets\<close>.
  \<open>occurring\<close> follows the words of the specification for strict mode: the trimmed entries
  that occur in the defaults. \<open>accepted\<close> keeps the trimmed entries that are not blank and,
  in strict mode, occur in the defaults.
\<close>

definition occurring :: "string list \<Rightarrow> string \<Rightarrow> string list" where
  "occurring D t = filter (\<lambda>v. v \<in> set D) (map js_trim (js_split CHR '','' t))"

definition accepted :: "string list \<Rightarrow> bool \<Rightarrow> string \<Rightarrow> string list" where
  "accepted D strict t =
     filter (\<lambda>v. v \<noteq> [] \<and> (strict \<longrightarrow> v \<in> set D)) (map js_trim (js_split CHR '','' t))"

section \<open>Values, promises and collaborators\<close>

text \<open>
  A promise is described by how it settles: it resolves with a value, rejects with a
  reason, or stays pending for ever. The reasons are the strings this module rejects
  with, the \<^verbatim>\<open>Error\<close> objects it throws, the \<^verbatim>\<open>TypeError\<close> of calling what is not a
  function, and the failures of the collaborators, which are opaque.
\<close>

datatype val = Undefined | Str string | Opaque nat | Array "val list"

datatype reason = Message string | Error string | TypeError | Failure nat

datatype 'a promise = Resolved 'a | Rejected reason | Pending

text \<open>
  A call returns a promise, returns something that is not a promise, or throws.
\<close>

datatype 'a completion = Return 'a | NotPromise | Throw reason

text \<open>
  A call of a collaborator module (\<^verbatim>\<open>config.js\<close>, \<^verbatim>\<open>core.js\<close>, \<^verbatim>\<open>manifest.js\<close>,
  \<^verbatim>\<open>packages.js\<close>, \<^verbatim>\<open>themes.js\<close>, the logger) is recorded with the name of the function and the
  arguments that this module chooses; \<open>cli\<close> and \<open>cfg\<close> are passed along as they are.
\<close>

datatype call = Call string "val list"

text \<open>
  What one invocation does, in order: loading the configuration, calling a task handler
  (a marker that the model adds), and the calls of collaborators.
\<close>

datatype step = LoadConfiguration | Invoke string | Effect call

fun invoked :: "step list \<Rightarrow> string list" where
  "invoked [] = []"
| "invoked (Invoke n # tr) = n # invoked tr"
| "invoked (s # tr) = invoked tr"

definition loads :: "step list \<Rightarrow> nat" where
  "loads tr = length (filter (\<lambda>s. s = LoadConfiguration) tr)"

text \<open>
  A task handler, as registered in a namespace: it is called with \<open>cli\<close> and \<open>cfg\<close>, calls
  collaborators and completes.
\<close>

type_synonym ('w, 'cfg) handler =
  "cli \<Rightarrow> 'cfg \<Rightarrow> 'w \<Rightarrow> call list \<times> val promise completion \<times> 'w"

text \<open>
  The collaborators are outside this module. Their state is a value of type \<open>'w\<close> that every
  call may read and change. \<open>getConfiguration\<close> and \<open>perform\<close> return a promise, as the
  contract of the collaborators says; \<open>race\<close> says which of several rejected promises
  settles first; \<open>generators\<close> are the own properties of the module \<^verbatim>\<open>generate.js\<close>;
  \<open>writeFileSync\<close> returns or throws; \<open>notPromise\<close> is what \<^verbatim>\<open>_utils.eachp\<close> makes of a
  function whose result is not a promise, on which the specification is silent.
\<close>

record ('w, 'cfg) env =
  getConfiguration :: "'w \<Rightarrow> 'cfg promise \<times> 'w"
  perform :: "call \<Rightarrow> cli \<Rightarrow> 'cfg \<Rightarrow> 'w \<Rightarrow> val promise \<times> 'w"
  race :: "reason list \<Rightarrow> nat"
  generators :: "(string \<times> ('w, 'cfg) handler) list"
  writeFileSync :: "string \<Rightarrow> val \<Rightarrow> 'w \<Rightarrow> reason option \<times> 'w"
  notPromise :: "val promise"

section \<open>Reading a property of an object\<close>

text \<open>
  \<^verbatim>\<open>TASKS.build\<close>, \<^verbatim>\<open>TASKS.config\<close> and the exports of \<^verbatim>\<open>generate.js\<close> are plain objects.
  \<^verbatim>\<open>object[name]\<close> finds an own property or, failing that, a member of
  \<^verbatim>\<open>Object.prototype\<close>; all of these are truthy. An object is given by its own properties
  in the order of \<^verbatim>\<open>Object.keys\<close>.
\<close>

definition inheritedNames :: "string list" where
  "inheritedNames =
     [''constructor'', ''__defineGetter__'', ''__defineSetter__'', ''hasOwnProperty'',
      ''__lookupGetter__'', ''__lookupSetter__'', ''isPrototypeOf'', ''propertyIsEnumerable'',
      ''toString'', ''valueOf'', ''__proto__'', ''toLocaleString'']"

datatype 'h property = Own 'h | Inherited

definition property :: "(string \<times> 'h) list \<Rightarrow> string \<Rightarrow> 'h property option" where
  "property object name =
     (case map_of object name of
        Some h \<Rightarrow> Some (Own h)
      | None \<Rightarrow> if indexOf inheritedNames name = - 1 then None else Some Inherited)"

text \<open>
  \<^verbatim>\<open>object[name](cli, cfg)\<close> for an inherited member: \<^verbatim>\<open>__proto__\<close> is not a function, and
  \<^verbatim>\<open>__defineGetter__\<close> and \<^verbatim>\<open>__defineSetter__\<close> refuse \<open>cfg\<close>, which is not a function; the
  others return something that is not a promise.
\<close>

definition callInherited :: "string \<Rightarrow> 'a completion" where
  "callInherited name =
     (if name = ''__proto__'' \<or> name = ''__defineGetter__'' \<or> name = ''__defineSetter__''
      then Throw TypeError else NotPromise)"

definition optv :: "string option \<Rightarrow> val" where
  "optv v = (case v of None \<Rightarrow> Undefined | Some s \<Rightarrow> Str s)"

text \<open>\<^verbatim>\<open>list.map((c) => collaborator(c, cli, cfg))\<close>: every call is started, in list order.\<close>

fun startAll :: "(call \<Rightarrow> 'w \<Rightarrow> val promise \<times> 'w) \<Rightarrow> call list \<Rightarrow> 'w \<Rightarrow> val promise list \<times> 'w" where
  "startAll f [] w = ([], w)"
| "startAll f (c # cs) w =
     (case f c w of (p, w1) \<Rightarrow> (case startAll f cs w1 of (ps, w2) \<Rightarrow> (p # ps, w2)))"

text \<open>
  \<^verbatim>\<open>Promise.all\<close>: rejected as soon as one promise is rejected, with the reason of the one
  that settles first; otherwise pending while one is pending; otherwise resolved with the
  values in order.
\<close>

definition promise_all :: "(reason list \<Rightarrow> nat) \<Rightarrow> val promise list \<Rightarrow> val promise" where
  "promise_all rc ps =
     (let rs = [e. Rejected e \<leftarrow> ps]
      in if rs \<noteq> [] then Rejected (rs ! (rc rs mod length rs))
         else if Pending \<in> set ps then Pending
         else Resolved (Array [v. Resolved v \<leftarrow> ps]))"

text \<open>\<^verbatim>\<open>Promise.all(list.map(...))\<close>\<close>

definition fanOut :: "('w, 'cfg) env \<Rightarrow> call list \<Rightarrow> ('w, 'cfg) handler" where
  "fanOut env cs cli cfg w =
     (case startAll (\<lambda>c. perform env c cli cfg) cs w of
        (ps, w1) \<Rightarrow> (cs, Return (promise_all (race env) ps), w1))"

text \<open>A handler that returns the promise of one collaborator call.\<close>

definition single :: "('w, 'cfg) env \<Rightarrow> call \<Rightarrow> ('w, 'cfg) handler" where
  "single env c cli cfg w =
     (case perform env c cli cfg w of (p, w1) \<Rightarrow> ([c], Return p, w1))"

section \<open>Running functions one after the other\<close>

text \<open>
  Modelled from the spec: \<^verbatim>\<open>_utils.eachp\<close> of \<^verbatim>\<open>utils.js\<close>, which is not part of the sources
  at hand. It runs the functions of a list in order, each one after the promise of the one
  before has resolved; the first failure ends the run and is the failure of the whole; on
  success the results are collected in order. A function that throws has failed. What
  becomes of a result that is not a promise is the parameter \<open>np\<close>.
\<close>

definition settle :: "val promise \<Rightarrow> val promise completion \<Rightarrow> val promise" where
  "settle np c = (case c of Return p \<Rightarrow> p | NotPromise \<Rightarrow> np | Throw e \<Rightarrow> Rejected e)"

fun eachp :: "val promise \<Rightarrow> ('w \<Rightarrow> 'e list \<times> val promise completion \<times> 'w) list \<Rightarrow> 'w
    \<Rightarrow> 'e list \<times> val list promise \<times> 'w" where
  "eachp np [] w = ([], Resolved [], w)"
| "eachp np (t # ts) w =
     (case t w of
        (tr, c, w1) \<Rightarrow>
          (case settle np c of
             Resolved v \<Rightarrow>
               (case eachp np ts w1 of (tr', r, w2) \<Rightarrow> (tr @ tr', map_promise ((#) v) r, w2))
           | Rejected e \<Rightarrow> (tr, Rejected e, w1)
           | Pending \<Rightarrow> (tr, Pending, w1)))"

section \<open>Iterating the given tasks\<close>

text \<open>
  A namespace is \<^verbatim>\<open>TASKS.build\<close> or \<^verbatim>\<open>TASKS.config\<close>, an object whose own properties
  are the registered handlers, or \<^verbatim>\<open>TASKS.generate\<close>, a function that receives the task
  name.
\<close>

datatype ('w, 'cfg) namespace =
    Fn "cli \<Rightarrow> 'cfg \<Rightarrow> string \<Rightarrow> 'w \<Rightarrow> call list \<times> val promise completion \<times> 'w"
  | Obj "(string \<times> ('w, 'cfg) handler) list"

definition normalized :: "string \<Rightarrow> string" where
  "normalized iter = replace_first CHR ''-'' CHR ''_'' iter"

text \<open>\<^verbatim>\<open>args.replace(/\s/, '').split(',')\<close>\<close>

definition entries :: "string \<Rightarrow> string list" where
  "entries args = js_split CHR '','' (remove_first_space args)"

text \<open>The function that \<^verbatim>\<open>_eachTask\<close> makes of one entry of the list.\<close>

definition task :: "cli \<Rightarrow> 'cfg \<Rightarrow> string \<Rightarrow> ('w, 'cfg) namespace \<Rightarrow> string \<Rightarrow> 'w
    \<Rightarrow> step list \<times> val promise completion \<times> 'w" where
  "task cli cfg taskName namespace iter0 w =
     (let iter = normalized iter0
      in case namespace of
           Fn f \<Rightarrow>
             (case f cli cfg iter w of (cs, r, w1) \<Rightarrow> (Invoke iter # map Effect cs, r, w1))
         | Obj ns \<Rightarrow>
             (case property ns iter of
                Some (Own h) \<Rightarrow>
                  (case h cli cfg w of
                     (cs, r, w1) \<Rightarrow>
                       (Effect (Call ''logger.log''
                            [Str ''Running task:'', Str (taskName @ '':'' @ iter)])
                          # Invoke iter # map Effect cs, r, w1))
              | Some Inherited \<Rightarrow>
                  ([Effect (Call ''logger.log''
                      [Str ''Running task:'', Str (taskName @ '':'' @ iter)]), Invoke iter],
                   callInherited iter, w)
              | None \<Rightarrow> ([], Return (Rejected (Message (''Invalid task: '' @ iter))), w)))"

text \<open>The list of functions that \<^verbatim>\<open>_eachTask\<close> hands to \<^verbatim>\<open>_utils.eachp\<close>, run by it.\<close>

definition chain :: "val promise \<Rightarrow> cli \<Rightarrow> 'cfg \<Rightarrow> string \<Rightarrow> ('w, 'cfg) namespace
    \<Rightarrow> string list \<Rightarrow> 'w \<Rightarrow> step list \<times> val list promise \<times> 'w" where
  "chain np cli cfg taskName namespace es w =
     eachp np (map (task cli cfg taskName namespace) es) w"

text \<open>\<^verbatim>\<open>_eachTask(cli, args, taskName, namespace)\<close>\<close>

definition eachTask :: "('w, 'cfg) env \<Rightarrow> cli \<Rightarrow> string option \<Rightarrow> string \<Rightarrow> ('w, 'cfg) namespace
    \<Rightarrow> 'w \<Rightarrow> step list \<times> val promise \<times> 'w" where
  "eachTask env cli args taskName namespace w =
     (case args of
        None \<Rightarrow> ([], Rejected (Message ''Not enough arguments''), w)
      | Some a \<Rightarrow>
          if a = [] then ([], Rejected (Message ''Not enough arguments''), w)
          else
            (case getConfiguration env w of
               (Resolved cfg, w1) \<Rightarrow>
                 (case chain (notPromise env) cli cfg taskName namespace (entries a) w1 of
                    (tr, r, w2) \<Rightarrow> (LoadConfiguration # tr, map_promise Array r, w2))
             | (Rejected e, w1) \<Rightarrow> ([LoadConfiguration], Rejected e, w1)
             | (Pending, w1) \<Rightarrow> ([LoadConfiguration], Pending, w1)))"

section \<open>The tasks\<close>

subsection \<open>\<^verbatim>\<open>TASKS.build\<close>\<close>

definition build_config :: "('w, 'cfg) env \<Rightarrow> ('w, 'cfg) handler" where
  "build_config env cli cfg w =
     (let list = getTargets cli [''client'', ''server''] True
      in fanOut env (map (\<lambda>target. Call ''config.writeConfiguration'' [Str target]) list)
           cli cfg w)"

definition build_core :: "('w, 'cfg) env \<Rightarrow> ('w, 'cfg) handler" where
  "build_core env cli cfg w =
     (let list = getTargets cli [''dist'', ''dist-dev''] False
      in fanOut env (map (\<lambda>target. Call ''core.buildFiles'' [Str target]) list) cli cfg w)"

definition build_theme :: "('w, 'cfg) env \<Rightarrow> ('w, 'cfg) handler" where
  "build_theme env cli cfg w =
     (let targets =
            [(cli ''style'', ''themes.buildStyle''), (cli ''icons'', ''themes.buildIcon''),
             (cli ''static'', ''themes.buildStatic''), (cli ''fonts'', ''themes.buildFonts'')];
          list = map (\<lambda>iter. Call (snd iter) [optv (fst iter)])
                   (filter (\<lambda>iter. truthy (fst iter)) targets)
      in fanOut env list cli cfg w)"

definition build_themes :: "('w, 'cfg) env \<Rightarrow> ('w, 'cfg) handler" where
  "build_themes env cli cfg w = single env (Call ''themes.buildAll'' []) cli cfg w"

text \<open>\<^verbatim>\<open>list.push('server')\<close> appends to the list that \<^verbatim>\<open>_getTargets\<close> returned.\<close>

definition build_manifest :: "('w, 'cfg) env \<Rightarrow> ('w, 'cfg) handler" where
  "build_manifest env cli cfg w =
     (let list = getTargets cli [''dist'', ''dist-dev''] False @ [''server'']
      in fanOut env (map (\<lambda>target. Call ''manifest.writeManifest'' [Str target]) list)
           cli cfg w)"

definition build_package :: "('w, 'cfg) env \<Rightarrow> ('w, 'cfg) handler" where
  "build_package env cli cfg w =
     (let list = getTargets cli [''dist'', ''dist-dev''] False
      in case cli ''name'' of
           None \<Rightarrow> ([], Throw (Error ''Invalid package name''), w)
         | Some name \<Rightarrow>
             if name = [] \<or> indexOf name CHR ''/'' = - 1
             then ([], Throw (Error ''Invalid package name''), w)
             else fanOut env
                    (map (\<lambda>target. Call ''packages.buildPackage'' [Str target, Str name]) list)
                    cli cfg w)"

definition build_packages :: "('w, 'cfg) env \<Rightarrow> ('w, 'cfg) handler" where
  "build_packages env cli cfg w =
     (let list = getTargets cli [''dist'', ''dist-dev''] False
      in case eachp (notPromise env)
                (map (\<lambda>target. single env (Call ''packages.buildPackages'' [Str target])
                        cli cfg) list) w of
           (cs, r, w1) \<Rightarrow> (cs, Return (map_promise Array r), w1))"

definition TASKS_build :: "('w, 'cfg) env \<Rightarrow> (string \<times> ('w, 'cfg) handler) list" where
  "TASKS_build env =
     [(''config'', build_config env), (''core'', build_core env), (''theme'', build_theme env),
      (''themes'', build_themes env), (''manifest'', build_manifest env),
      (''package'', build_package env), (''packages'', build_packages env)]"

subsection \<open>\<^verbatim>\<open>TASKS.config\<close>\<close>

text \<open>\<^verbatim>\<open>a || b\<close> on option values, and \<^verbatim>\<open>cli.option(name, default)\<close>.\<close>

definition js_or :: "string option \<Rightarrow> string option \<Rightarrow> string option" where
  "js_or a b = (if truthy a then a else b)"

definition option_default :: "cli \<Rightarrow> string \<Rightarrow> string \<Rightarrow> string option" where
  "option_default cli n d = (case cli n of None \<Rightarrow> Some d | Some v \<Rightarrow> Some v)"

definition TASKS_config :: "('w, 'cfg) env \<Rightarrow> (string \<times> ('w, 'cfg) handler) list" where
  "TASKS_config env =
     [(''set'', \<lambda>cli. single env (Call ''config.set''
          [optv (cli ''name''), optv (cli ''value''), optv (cli ''import'')]) cli),
      (''get'', \<lambda>cli. single env (Call ''config.get'' [optv (cli ''name'')]) cli),
      (''add_mount'', \<lambda>cli. single env (Call ''config.addMount''
          [optv (cli ''name''), optv (js_or (cli ''description'') (cli ''desc'')),
           optv (cli ''path''), optv (cli ''transport''), optv (cli ''ro'')]) cli),
      (''add_preload'', \<lambda>cli. single env (Call ''config.addPreload''
          [optv (cli ''name''), optv (cli ''path''), optv (cli ''type'')]) cli),
      (''add_repository'', \<lambda>cli. single env (Call ''config.addRepository''
          [optv (cli ''name'')]) cli),
      (''add_script'', \<lambda>cli. single env (Call ''config.addOverlayFile''
          [Str ''javascript'', optv (cli ''path''),
           optv (option_default cli ''overlay'' ''custom'')]) cli),
      (''add_style'', \<lambda>cli. single env (Call ''config.addOverlayFile''
          [Str ''stylesheets'', optv (cli ''path''),
           optv (option_default cli ''overlay'' ''custom'')]) cli),
      (''add_locale'', \<lambda>cli. single env (Call ''config.addOverlayFile''
          [Str ''locales'', optv (cli ''path''),
           optv (option_default cli ''overlay'' ''custom'')]) cli),
      (''remove_repository'', \<lambda>cli. single env (Call ''config.removeRepository''
          [optv (cli ''name'')]) cli),
      (''enable_package'', \<lambda>cli. single env (Call ''config.enablePackage''
          [optv (cli ''name'')]) cli),
      (''disable_package'', \<lambda>cli. single env (Call ''config.disablePackage''
          [optv (cli ''name'')]) cli),
      (''list_packages'', \<lambda>cli. single env (Call ''config.listPackages'' []) cli)]"

subsection \<open>\<^verbatim>\<open>TASKS.generate\<close>\<close>

text \<open>
  What is thrown inside \<^verbatim>\<open>new Promise\<close>, or in the function given to \<^verbatim>\<open>then\<close> before
  \<^verbatim>\<open>catch(reject)\<close>, rejects the promise: a generator that throws, \<^verbatim>\<open>.then\<close> on a result
  that is not a promise, an inherited member that is called, \<^verbatim>\<open>writeFileSync\<close> that fails.
  The content written to the file is \<^verbatim>\<open>String(arg)\<close>, recorded as \<open>arg\<close>.
\<close>

definition TASKS_generate :: "('w, 'cfg) env \<Rightarrow> cli \<Rightarrow> 'cfg \<Rightarrow> string \<Rightarrow> 'w
    \<Rightarrow> call list \<times> val promise completion \<times> 'w" where
  "TASKS_generate env cli cfg name w =
     (case property (generators env) name of
        Some (Own g) \<Rightarrow>
          (case g cli cfg w of
             (cs, Return (Resolved arg), w1) \<Rightarrow>
               (case cli ''out'' of
                  None \<Rightarrow> (cs @ [Call ''logger.log'' [arg]], Return (Resolved Undefined), w1)
                | Some out \<Rightarrow>
                    if out = []
                    then (cs @ [Call ''logger.log'' [arg]], Return (Resolved Undefined), w1)
                    else
                      (case writeFileSync env out arg w1 of
                         (None, w2) \<Rightarrow>
                           (cs @ [Call ''fs.writeFileSync'' [Str out, arg]],
                            Return (Resolved Undefined), w2)
                       | (Some e, w2) \<Rightarrow>
                           (cs @ [Call ''fs.writeFileSync'' [Str out, arg]],
                            Return (Rejected e), w2)))
           | (cs, Return (Rejected e), w1) \<Rightarrow> (cs, Return (Rejected e), w1)
           | (cs, Return Pending, w1) \<Rightarrow> (cs, Return Pending, w1)
           | (cs, NotPromise, w1) \<Rightarrow> (cs, Return (Rejected TypeError), w1)
           | (cs, Throw e, w1) \<Rightarrow> (cs, Return (Rejected e), w1))
      | Some Inherited \<Rightarrow> ([], Return (Rejected TypeError), w)
      | None \<Rightarrow> ([], Return (Rejected (Message (''Invalid generator: '' @ name))), w))"

subsection \<open>\<^verbatim>\<open>ORIGINAL_TASKS\<close>\<close>

text \<open>
  The names of \<^verbatim>\<open>TASKS.build\<close> when the module is loaded, before \<^verbatim>\<open>_init\<close> lets the
  modules register their own.
\<close>

definition ORIGINAL_TASKS_build :: "string list" where
  "ORIGINAL_TASKS_build =
     [''config'', ''core'', ''theme'', ''themes'', ''manifest'', ''package'', ''packages'']"

section \<open>Exports\<close>

text \<open>
  The modules that \<^verbatim>\<open>_init\<close> loads receive \<^verbatim>\<open>TASKS\<close> and may change it, so the exports take
  the namespace they read as it is at the time of the call: \<open>tasks\<close> is \<^verbatim>\<open>TASKS.build\<close>,
  \<^verbatim>\<open>TASKS.config\<close> or \<^verbatim>\<open>TASKS.generate\<close>.
\<close>

text \<open>The list that \<^verbatim>\<open>build\<close> makes when it is given no \<open>args\<close>, before \<^verbatim>\<open>join(',')\<close>.\<close>

definition canonical :: "string list" where
  "canonical = [''config'', ''core'', ''themes'', ''manifest'', ''packages'']"

definition defaultArgs :: "string list \<Rightarrow> string list" where
  "defaultArgs keys =
     (let args = canonical
      in args @ filter (\<lambda>i. indexOf ORIGINAL_TASKS_build i = - 1 \<and> indexOf args i = - 1) keys)"


definition build :: "('w, 'cfg) env \<Rightarrow> (string \<times> ('w, 'cfg) handler) list \<Rightarrow> cli
    \<Rightarrow> string option \<Rightarrow> 'w \<Rightarrow> step list \<times> val promise \<times> 'w" where
  "build env tasks cli args w =
     (let args' = (if \<not> truthy args
                   then Some (js_join CHR '','' (defaultArgs (map fst tasks)))
                   else args)
      in eachTask env cli args' ''build'' (Obj tasks) w)"

text \<open>
  \<^verbatim>\<open>module.exports.config\<close>. The promise of \<^verbatim>\<open>getConfiguration\<close> has a \<^verbatim>\<open>then\<close> and no
  \<^verbatim>\<open>catch\<close>: when it is rejected, or when something is thrown in the function given to
  \<^verbatim>\<open>then\<close> (by the handler, or by \<^verbatim>\<open>.then\<close> on a result that is not a promise), neither
  \<^verbatim>\<open>resolve\<close> nor \<^verbatim>\<open>reject\<close> is called.
\<close>

definition config :: "('w, 'cfg) env \<Rightarrow> (string \<times> ('w, 'cfg) handler) list \<Rightarrow> cli
    \<Rightarrow> string option \<Rightarrow> 'w \<Rightarrow> step list \<times> val promise \<times> 'w" where
  "config env tasks cli arg0 w =
     (let arg = normalized (case arg0 of None \<Rightarrow> [] | Some a \<Rightarrow> a)
      in case property tasks arg of
           Some p \<Rightarrow>
             (case getConfiguration env w of
                (Resolved cfg, w1) \<Rightarrow>
                  (case p of
                     Own h \<Rightarrow>
                       (case h cli cfg w1 of
                          (cs, Return (Resolved v), w2) \<Rightarrow>
                            (LoadConfiguration # Invoke arg # map Effect cs
                               @ (if v \<noteq> Undefined then [Effect (Call ''logger.log'' [v])]
                                  else []),
                             Resolved Undefined, w2)
                        | (cs, Return (Rejected e), w2) \<Rightarrow>
                            (LoadConfiguration # Invoke arg # map Effect cs, Rejected e, w2)
                        | (cs, Return Pending, w2) \<Rightarrow>
                            (LoadConfiguration # Invoke arg # map Effect cs, Pending, w2)
                        | (cs, NotPromise, w2) \<Rightarrow>
                            (LoadConfiguration # Invoke arg # map Effect cs, Pending, w2)
                        | (cs, Throw e, w2) \<Rightarrow>
                            (LoadConfiguration # Invoke arg # map Effect cs, Pending, w2))
                   | Inherited \<Rightarrow> ([LoadConfiguration, Invoke arg], Pending, w1))
              | (Rejected e, w1) \<Rightarrow> ([LoadConfiguration], Pending, w1)
              | (Pending, w1) \<Rightarrow> ([LoadConfiguration], Pending, w1))
         | None \<Rightarrow> ([], Rejected (Message (''Invalid action: '' @ arg)), w))"

definition generate :: "('w, 'cfg) env
    \<Rightarrow> (cli \<Rightarrow> 'cfg \<Rightarrow> string \<Rightarrow> 'w \<Rightarrow> call list \<times> val promise completion \<times> 'w) \<Rightarrow> cli
    \<Rightarrow> string option \<Rightarrow> 'w \<Rightarrow> step list \<times> val promise \<times> 'w" where
  "generate env tasks cli args w = eachTask env cli args ''generate'' (Fn tasks) w"

section \<open>Sample collaborators\<close>

text \<open>
  Collaborators whose state counts the calls made, with no generators: all of them
  succeed; the configuration cannot be loaded; building the core files for \<open>dist\<close> fails.
\<close>

definition succeeding :: "(nat, nat) env" where
  "succeeding =
     \<lparr>getConfiguration = (\<lambda>w. (Resolved 0, w)),
      perform = (\<lambda>c cli cfg w. (Resolved Undefined, Suc w)),
      race = (\<lambda>rs. 0),
      generators = [],
      writeFileSync = (\<lambda>out arg w. (None, Suc w)),
      notPromise = Rejected TypeError\<rparr>"

definition unloadable :: "(nat, nat) env" where
  "unloadable = succeeding\<lparr>getConfiguration := (\<lambda>w. (Rejected (Failure 1), w))\<rparr>"

definition core_failing :: "(nat, nat) env" where
  "core_failing =
     succeeding\<lparr>perform := (\<lambda>c cli cfg w.
        (if c = Call ''core.buildFiles'' [Str ''dist''] then Rejected (Failure 2)
         else Resolved Undefined, Suc w))\<rparr>"

definition options :: "(string \<times> string) list \<Rightarrow> cli" where
  "options kvs = map_of kvs"

section \<open>Facts about the string and array functions\<close>

lemma indexOf_ge: "- 1 \<le> indexOf xs v"
  by (induction xs) (auto simp: Let_def)

lemma indexOf_absent: "indexOf xs v = - 1 \<longleftrightarrow> v \<notin> set xs"
proof (induction xs)
  case Nil
  show ?case by simp
next
  case (Cons x xs)
  have "- 1 \<le> indexOf xs v" by (rule indexOf_ge)
  then have "indexOf xs v + 1 \<noteq> - 1" by arith
  with Cons show ?case by (auto simp: Let_def)
qed

lemma js_split_nonempty: "js_split c s \<noteq> []"
  by (induction s) (auto simp: Let_def)

lemma js_join_Cons: "js_join c ((x # y) # ys) = x # js_join c (y # ys)"
  by (cases ys) auto

lemma js_join_split: "js_join c (js_split c s) = s"
proof (induction s)
  case Nil
  show ?case by simp
next
  case (Cons x xs)
  obtain y ys where r: "js_split c xs = y # ys"
    using js_split_nonempty [of c xs] by (cases "js_split c xs") auto
  with Cons show ?case by (auto simp: js_join_Cons Let_def)
qed





lemma remove_first_space_none: "\<forall>x\<in>set s. \<not> isSpace x \<Longrightarrow> remove_first_space s = s"
  by (induction s) auto

lemma remove_first_space_first:
  "\<forall>x\<in>set p. \<not> isSpace x \<Longrightarrow> isSpace c \<Longrightarrow> remove_first_space (p @ c # q) = p @ q"
  by (induction p) auto

lemma replace_first_none: "c \<notin> set s \<Longrightarrow> replace_first c d s = s"
  by (induction s) auto

lemma replace_first_first: "c \<notin> set p \<Longrightarrow> replace_first c d (p @ c # q) = p @ d # q"
  by (induction p) auto

section \<open>The targets\<close>

lemma strict_entries:
  "map the (filter truthy (map (\<lambda>iter.
       if indexOf D (js_trim iter) = - 1 then None else Some (js_trim iter)) xs))
     = filter (\<lambda>v. v \<noteq> [] \<and> v \<in> set D) (map js_trim xs)"
  by (induction xs) (auto simp: truthy_def indexOf_absent)

lemma loose_entries:
  "map the (filter truthy (map (\<lambda>iter. Some (js_trim iter)) xs))
     = filter (\<lambda>v. v \<noteq> []) (map js_trim xs)"
  by (induction xs) (auto simp: truthy_def)

lemma getTargets_given:
  "cli ''target'' = Some t \<Longrightarrow> t \<noteq> [] \<Longrightarrow>
     getTargets cli D strict =
       (if strict \<and> accepted D strict t = [] then D else accepted D strict t)"
  by (cases strict) (simp_all add: getTargets_def Let_def strict_entries loose_entries accepted_def)

lemma getTargets_absent:
  "cli ''target'' = None \<or> cli ''target'' = Some [] \<Longrightarrow> getTargets cli D strict = D"
  by (auto simp: getTargets_def Let_def)

lemma accepted_occurring: "[] \<notin> set D \<Longrightarrow> accepted D True t = occurring D t"
  unfolding accepted_def occurring_def by (rule filter_cong) auto

lemma count_list_filter:
  "count_list (filter P xs) v = (if P v then count_list xs v else 0)"
  by (induction xs) auto

text \<open>
  C2, as stated: the list of targets never has an entry twice. It fails: the option value
  \<open>a,a\<close> against the defaults \<open>a\<close> gives \<open>a\<close> twice.
\<close>

theorem getTargets_keeps_duplicates:
  "\<not> distinct (getTargets (options [(''target'', ''a,a'')]) [''a''] True)"
  by (simp add: getTargets_def options_def js_trim_def isSpace_def truthy_def Let_def)

text \<open>
  C2, amended: in both modes the resolver removes blank entries and, in strict mode,
  entries that are not among the defaults, and nothing else. With no option value, or
  in strict mode with no accepted entry, the list of targets is the defaults; otherwise
  it is the accepted entries of the option value, each as often as it occurs there. So
  the list has an entry twice exactly when the accepted entries, or the defaults that
  stand in for them, have.
\<close>

theorem getTargets_keeps_every_occurrence:
  "getTargets cli defaults strict =
     (case cli ''target'' of
        None \<Rightarrow> defaults
      | Some t \<Rightarrow>
          if t = [] \<or> (strict \<and> accepted defaults strict t = []) then defaults
          else accepted defaults strict t)
   \<and> count_list (accepted defaults strict u) v =
       (if v \<noteq> [] \<and> (strict \<longrightarrow> v \<in> set defaults)
        then count_list (map js_trim (js_split CHR '','' u)) v else 0)
   \<and> (cli ''target'' = Some u \<and> u \<noteq> [] \<and> accepted defaults strict u \<noteq> [] \<longrightarrow>
        distinct (getTargets cli defaults strict) = distinct (accepted defaults strict u))"
proof -
  have res: "getTargets cli defaults strict =
     (case cli ''target'' of
        None \<Rightarrow> defaults
      | Some t \<Rightarrow>
          if t = [] \<or> (strict \<and> accepted defaults strict t = []) then defaults
          else accepted defaults strict t)"
  proof (cases "cli ''target''")
    case None
    then show ?thesis by (simp add: getTargets_absent)
  next
    case (Some t)
    then show ?thesis
      by (cases "t = []") (simp_all add: getTargets_absent getTargets_given)
  qed
  have cnt: "count_list (accepted defaults strict u) v =
       (if v \<noteq> [] \<and> (strict \<longrightarrow> v \<in> set defaults)
        then count_list (map js_trim (js_split CHR '','' u)) v else 0)"
    unfolding accepted_def by (rule count_list_filter)
  have dis: "cli ''target'' = Some u \<and> u \<noteq> [] \<and> accepted defaults strict u \<noteq> [] \<longrightarrow>
        distinct (getTargets cli defaults strict) = distinct (accepted defaults strict u)"
    by (simp add: getTargets_given)
  from res cnt dis show ?thesis
    by (intro conjI)
qed

theorem getTargets_keeps_every_occurrence_witness:
  "getTargets (options [(''target'', ''b, a ,b, ,x'')]) [''a'', ''b''] True = [''b'', ''a'', ''b'']
   \<and> getTargets (options [(''target'', ''b, a ,b, ,x'')]) [''a'', ''b''] False
       = [''b'', ''a'', ''b'', ''x'']"
proof -
  have t: "options [(''target'', ''b, a ,b, ,x'')] ''target'' = Some ''b, a ,b, ,x''"
    by (simp add: options_def)
  have s: "accepted [''a'', ''b''] True ''b, a ,b, ,x'' = [''b'', ''a'', ''b'']"
    by (simp add: accepted_def js_trim_def isSpace_def Let_def)
  have l: "accepted [''a'', ''b''] False ''b, a ,b, ,x'' = [''b'', ''a'', ''b'', ''x'']"
    by (simp add: accepted_def js_trim_def isSpace_def Let_def)
  from getTargets_keeps_every_occurrence
    [of "options [(''target'', ''b, a ,b, ,x'')]" "[''a'', ''b'']" True, THEN conjunct1]
    getTargets_keeps_every_occurrence
    [of "options [(''target'', ''b, a ,b, ,x'')]" "[''a'', ''b'']" False, THEN conjunct1]
  show ?thesis
    by (simp add: t s l)
qed

text \<open>
  C5: for non-empty defaults \<open>D\<close>, none of them the empty string, strict mode returns \<open>D\<close>
  unchanged when the option value is absent or empty; for a non-empty option value it
  returns exactly the trimmed entries that occur in \<open>D\<close>, in input order, and \<open>D\<close> itself
  when no entry occurs in \<open>D\<close>. The result is never empty.
\<close>

theorem getTargets_strict:
  assumes "D \<noteq> []" and "[] \<notin> set D"
  shows "getTargets cli D True =
           (case cli ''target'' of
              None \<Rightarrow> D
            | Some t \<Rightarrow> if t = [] \<or> occurring D t = [] then D else occurring D t)
         \<and> getTargets cli D True \<noteq> []"
proof (cases "cli ''target''")
  case None
  then show ?thesis using assms by (simp add: getTargets_absent)
next
  case (Some t)
  show ?thesis
  proof (cases "t = []")
    case True
    with Some show ?thesis using assms by (simp add: getTargets_absent)
  next
    case False
    with Some show ?thesis
      using assms by (simp add: getTargets_given accepted_occurring)
  qed
qed

theorem getTargets_strict_witness:
  "getTargets (options [(''target'', ''a,b,bogus'')]) [''a'', ''b''] True = [''a'', ''b'']
   \<and> getTargets (options [(''target'', ''bogus'')]) [''a'', ''b''] True = [''a'', ''b'']
   \<and> getTargets (options [(''target'', '' server , client'')]) [''client'', ''server''] True
       = [''server'', ''client'']"
proof -
  have ne: "[''a'', ''b''] \<noteq> []" "[] \<notin> set [''a'', ''b'']"
    by simp_all
  have ne': "[''client'', ''server''] \<noteq> []" "[] \<notin> set [''client'', ''server'']"
    by simp_all
  have a1: "occurring [''a'', ''b''] ''a,b,bogus'' = [''a'', ''b'']"
    by (simp add: occurring_def js_trim_def isSpace_def Let_def)
  have a2: "occurring [''a'', ''b''] ''bogus'' = []"
    by (simp add: occurring_def js_trim_def isSpace_def Let_def)
  have a3: "occurring [''client'', ''server''] '' server , client'' = [''server'', ''client'']"
    by (simp add: occurring_def js_trim_def isSpace_def Let_def)
  show ?thesis
    using getTargets_strict [OF ne, of "options [(''target'', ''a,b,bogus'')]"]
      getTargets_strict [OF ne, of "options [(''target'', ''bogus'')]"]
      getTargets_strict [OF ne', of "options [(''target'', '' server , client'')]"]
    by (simp add: options_def a1 a2 a3)
qed

section \<open>The list of task names\<close>

text \<open>
  C9: before the list of task names is split on commas, only the first whitespace
  character of the whole string is removed; whitespace after it stays in the entries that
  are looked up, and a string without whitespace is split as it is.
\<close>

theorem only_first_space_removed:
  "((\<forall>x\<in>set p. \<not> isSpace x) \<and> isSpace c \<longrightarrow>
      entries (p @ c # q) = js_split CHR '','' (p @ q)
      \<and> js_join CHR '','' (entries (p @ c # q)) = p @ q)
   \<and> ((\<forall>x\<in>set s. \<not> isSpace x) \<longrightarrow> entries s = js_split CHR '','' s)"
  by (simp add: entries_def remove_first_space_first remove_first_space_none js_join_split)

theorem only_first_space_removed_witness:
  "entries ''a, b, c'' = [''a'', ''b'', '' c''] \<and> entries ''a,b'' = [''a'', ''b'']"
proof -
  have "(\<forall>x\<in>set ''a,''. \<not> isSpace x) \<and> isSpace CHR '' ''"
    by (simp add: isSpace_def)
  then have "entries (''a,'' @ CHR '' '' # ''b, c'') = js_split CHR '','' (''a,'' @ ''b, c'')"
    using only_first_space_removed [of "''a,''" "CHR '' ''" "''b, c''"] by blast
  moreover have "\<forall>x\<in>set ''a,b''. \<not> isSpace x"
    by (simp add: isSpace_def)
  then have "entries ''a,b'' = js_split CHR '','' ''a,b''"
    using only_first_space_removed [of _ _ _ "''a,b''"] by blast
  ultimately show ?thesis by (simp add: Let_def)
qed

text \<open>
  C7: for every namespace, \<open>eachTask\<close> with an absent or empty list of task names is
  rejected with \<open>Not enough arguments\<close>; nothing is done before, so the configuration is
  not loaded and the collaborators are left as they were.
\<close>

theorem not_enough_arguments:
  "eachTask env cli None taskName namespace w
     = ([], Rejected (Message ''Not enough arguments''), w)
   \<and> eachTask env cli (Some []) taskName namespace w
     = ([], Rejected (Message ''Not enough arguments''), w)"
  by (simp add: eachTask_def)

section \<open>The build tasks\<close>

lemma fst_fanOut: "fst (fanOut env cs cli cfg w) = cs"
  by (simp add: fanOut_def split: prod.splits)

text \<open>
  C8: when the \<open>name\<close> option is absent, or given without a \<open>/\<close> in it, the handler of
  \<open>build.package\<close> throws \<open>Invalid package name\<close> and has called no collaborator: the
  builder of a single package is started for no target.
\<close>

theorem package_name_required:
  assumes "cli ''name'' = None \<or> (\<exists>name. cli ''name'' = Some name \<and> CHR ''/'' \<notin> set name)"
  shows "build_package env cli cfg w = ([], Throw (Error ''Invalid package name''), w)"
  using assms by (auto simp: build_package_def indexOf_absent)

theorem package_name_required_witness:
  "build_package succeeding (options [(''name'', ''app'')]) 0 0
     = ([], Throw (Error ''Invalid package name''), 0)
   \<and> build_package succeeding (options []) 0 0
     = ([], Throw (Error ''Invalid package name''), 0)"
proof -
  have "options [(''name'', ''app'')] ''name'' = None
      \<or> (\<exists>name. options [(''name'', ''app'')] ''name'' = Some name \<and> CHR ''/'' \<notin> set name)"
    by (simp add: options_def)
  moreover have "options [] ''name'' = None
      \<or> (\<exists>name. options [] ''name'' = Some name \<and> CHR ''/'' \<notin> set name)"
    by (simp add: options_def)
  ultimately show ?thesis
    using package_name_required [of "options [(''name'', ''app'')]" succeeding 0 0]
      package_name_required [of "options []" succeeding 0 0]
    by simp
qed

text \<open>
  C10: the handler of \<open>build.manifest\<close> calls the manifest writer for every target of the
  resolved list, in order, and then for \<open>server\<close>; with no \<open>target\<close> option these are
  \<open>dist\<close>, \<open>dist-dev\<close> and \<open>server\<close>.
\<close>

theorem manifest_targets:
  "fst (build_manifest env cli cfg w)
     = map (\<lambda>target. Call ''manifest.writeManifest'' [Str target])
         (getTargets cli [''dist'', ''dist-dev''] False) @
       [Call ''manifest.writeManifest'' [Str ''server'']]
   \<and> (cli ''target'' = None \<longrightarrow>
        fst (build_manifest env cli cfg w)
          = [Call ''manifest.writeManifest'' [Str ''dist''],
             Call ''manifest.writeManifest'' [Str ''dist-dev''],
             Call ''manifest.writeManifest'' [Str ''server'']])"
  by (simp add: build_manifest_def fst_fanOut getTargets_absent)

theorem manifest_targets_witness:
  "fst (build_manifest succeeding (options []) 0 0)
     = [Call ''manifest.writeManifest'' [Str ''dist''],
        Call ''manifest.writeManifest'' [Str ''dist-dev''],
        Call ''manifest.writeManifest'' [Str ''server'']]
   \<and> build_manifest succeeding (options []) 0 0
     = ([Call ''manifest.writeManifest'' [Str ''dist''],
         Call ''manifest.writeManifest'' [Str ''dist-dev''],
         Call ''manifest.writeManifest'' [Str ''server'']],
        Return (Resolved (Array [Undefined, Undefined, Undefined])), 3)"
proof -
  have none: "options [] ''target'' = None"
    by (simp add: options_def)
  have run: "build_manifest succeeding (options []) 0 0
     = ([Call ''manifest.writeManifest'' [Str ''dist''],
         Call ''manifest.writeManifest'' [Str ''dist-dev''],
         Call ''manifest.writeManifest'' [Str ''server'']],
        Return (Resolved (Array [Undefined, Undefined, Undefined])), 3)"
    by (simp add: build_manifest_def getTargets_def options_def fanOut_def succeeding_def
        promise_all_def numeral_3_eq_3)
  show ?thesis
    using manifest_targets [of succeeding "options []" 0 0] none run by simp
qed

section \<open>Chains of tasks\<close>

lemma invoked_append: "invoked (tr @ tr') = invoked tr @ invoked tr'"
  by (induction tr rule: invoked.induct) auto

lemma invoked_Effect: "invoked (map Effect cs) = []"
  by (induction cs) auto

lemma loads_append: "loads (tr @ tr') = loads tr + loads tr'"
  by (simp add: loads_def)

lemma loads_Effect: "loads (map Effect cs) = 0"
  by (induction cs) (auto simp: loads_def)

lemma map_promise_append_Cons:
  "map_promise (\<lambda>x. v # vs @ x) r = map_promise ((@) (v # vs)) r"
  by (cases r) simp_all

lemma map_promise_Resolved:
  "map_promise f r = Resolved y \<longleftrightarrow> (\<exists>x. r = Resolved x \<and> y = f x)"
  by (cases r) auto

lemma eachp_append:
  "eachp np (ps @ qs) w =
     (case eachp np ps w of
        (tr, Resolved vs, w1) \<Rightarrow>
          (case eachp np qs w1 of (tr', r, w2) \<Rightarrow> (tr @ tr', map_promise ((@) vs) r, w2))
      | (tr, Rejected e, w1) \<Rightarrow> (tr, Rejected e, w1)
      | (tr, Pending, w1) \<Rightarrow> (tr, Pending, w1))"
proof (induction ps arbitrary: w)
  case Nil
  have "(@) [] = (\<lambda>x::val list. x)"
    by (rule ext) simp
  then show ?case
    by (simp add: promise.map_ident split: prod.splits)
next
  case (Cons t ps)
  show ?case
    by (simp add: Cons promise.map_comp comp_def map_promise_append_Cons
        split: prod.splits promise.splits)
qed

lemma chain_append:
  "chain np cli cfg tn ns (ps @ qs) w =
     (case chain np cli cfg tn ns ps w of
        (tr, Resolved vs, w1) \<Rightarrow>
          (case chain np cli cfg tn ns qs w1 of
             (tr', r, w2) \<Rightarrow> (tr @ tr', map_promise ((@) vs) r, w2))
      | (tr, Rejected e, w1) \<Rightarrow> (tr, Rejected e, w1)
      | (tr, Pending, w1) \<Rightarrow> (tr, Pending, w1))"
  unfolding chain_def map_append by (rule eachp_append)

lemma chain_Nil: "chain np cli cfg tn ns [] w = ([], Resolved [], w)"
  by (simp add: chain_def)

lemma chain_Cons:
  "chain np cli cfg tn ns (n # qs) w =
     (case task cli cfg tn ns n w of
        (tr, c, w1) \<Rightarrow>
          (case settle np c of
             Resolved v \<Rightarrow>
               (case chain np cli cfg tn ns qs w1 of
                  (tr', r, w2) \<Rightarrow> (tr @ tr', map_promise ((#) v) r, w2))
           | Rejected e \<Rightarrow> (tr, Rejected e, w1)
           | Pending \<Rightarrow> (tr, Pending, w1)))"
  unfolding chain_def list.map by (rule eachp.simps)

lemma task_invoked:
  "invoked (fst (task cli cfg tn ns n w)) = []
     \<or> invoked (fst (task cli cfg tn ns n w)) = [normalized n]"
  by (cases ns)
    (auto simp: task_def Let_def invoked_Effect split: prod.splits option.splits property.splits)

lemma task_resolved_invoked:
  "task cli cfg tn ns n w = (tr, c, w1) \<Longrightarrow> settle np c = Resolved v \<Longrightarrow>
     invoked tr = [normalized n]"
  by (cases ns)
    (auto simp: task_def Let_def invoked_Effect settle_def
      split: prod.splits option.splits property.splits)

lemma task_resolved_registered:
  "task cli cfg tn (Obj ns) n w = (tr, c, w1) \<Longrightarrow> settle np c = Resolved v \<Longrightarrow>
     property ns (normalized n) \<noteq> None"
  by (auto simp: task_def Let_def settle_def split: prod.splits option.splits)

lemma generate_resolved_registered:
  "task cli cfg tn (Fn (TASKS_generate env)) n w = (tr, c, w1) \<Longrightarrow>
     settle np c = Resolved v \<Longrightarrow> property (generators env) (normalized n) \<noteq> None"
  by (auto simp: task_def Let_def settle_def TASKS_generate_def
      split: prod.splits option.splits)

lemma task_loads: "loads (fst (task cli cfg tn ns n w)) = 0"
  by (cases ns) (auto simp: task_def Let_def loads_def filter_map comp_def
      split: prod.splits option.splits property.splits)

lemma chain_Cons_resolved:
  assumes "chain np cli cfg tn ns (n # es) w = (tr, Resolved vs, w2)"
  obtains tr1 c v w1 tr2 vs' where "task cli cfg tn ns n w = (tr1, c, w1)"
    and "settle np c = Resolved v"
    and "chain np cli cfg tn ns es w1 = (tr2, Resolved vs', w2)"
    and "tr = tr1 @ tr2" and "vs = v # vs'"
  using assms
  by (auto simp: chain_Cons map_promise_Resolved split: prod.splits promise.splits)

lemma chain_resolved_invoked:
  "chain np cli cfg tn ns es w = (tr, Resolved vs, w1) \<Longrightarrow> invoked tr = map normalized es"
proof (induction es arbitrary: w tr vs)
  case Nil
  then show ?case by (simp add: chain_def)
next
  case (Cons n es)
  from Cons.prems obtain tr1 c v w' tr2 vs'
    where t: "task cli cfg tn ns n w = (tr1, c, w')" and s: "settle np c = Resolved v"
      and c: "chain np cli cfg tn ns es w' = (tr2, Resolved vs', w1)"
      and tr: "tr = tr1 @ tr2"
    by (rule chain_Cons_resolved)
  from t s have "invoked tr1 = [normalized n]"
    by (rule task_resolved_invoked)
  moreover from c have "invoked tr2 = map normalized es"
    by (rule Cons.IH)
  ultimately show ?case
    by (simp add: tr invoked_append)
qed

lemma chain_resolved_all:
  assumes "\<And>n w tr c w1 v. task cli cfg tn ns n w = (tr, c, w1) \<Longrightarrow> settle np c = Resolved v
      \<Longrightarrow> P n"
  shows "chain np cli cfg tn ns es w = (tr, Resolved vs, w1) \<Longrightarrow> \<forall>n\<in>set es. P n"
proof (induction es arbitrary: w tr vs)
  case Nil
  then show ?case by simp
next
  case (Cons n es)
  from Cons.prems obtain tr1 c v w' tr2 vs'
    where t: "task cli cfg tn ns n w = (tr1, c, w')" and s: "settle np c = Resolved v"
      and c: "chain np cli cfg tn ns es w' = (tr2, Resolved vs', w1)"
    by (rule chain_Cons_resolved)
  from t s have "P n"
    by (rule assms)
  moreover from c have "\<forall>n\<in>set es. P n"
    by (rule Cons.IH)
  ultimately show ?case by simp
qed


lemma chain_loads: "loads (fst (chain np cli cfg tn ns es w)) = 0"
proof (induction es arbitrary: w)
  case Nil
  show ?case by (simp add: chain_def loads_def)
next
  case (Cons n es)
  have t: "\<And>tr r w1. task cli cfg tn ns n w = (tr, r, w1) \<Longrightarrow> loads tr = 0"
    using task_loads [of cli cfg tn ns n w] by simp
  have c: "\<And>w1 tr r w2. chain np cli cfg tn ns es w1 = (tr, r, w2) \<Longrightarrow> loads tr = 0"
    using Cons.IH by (metis fst_conv)
  show ?case
    by (auto simp: chain_Cons loads_append split: prod.splits promise.splits dest: t c)
qed

lemma eachTask_loaded:
  assumes "getConfiguration env w = (Resolved cfg, w0)" and "a \<noteq> []"
  shows "eachTask env cli (Some a) tn ns w =
           (case chain (notPromise env) cli cfg tn ns (entries a) w0 of
              (tr, r, w2) \<Rightarrow> (LoadConfiguration # tr, map_promise Array r, w2))"
  using assms by (simp add: eachTask_def)

lemma eachTask_load_failure:
  assumes "getConfiguration env w = (Rejected e, w0)" and "a \<noteq> []"
  shows "eachTask env cli (Some a) tn ns w = ([LoadConfiguration], Rejected e, w0)"
  using assms by (simp add: eachTask_def)

lemma config_load_failure:
  assumes "getConfiguration env w = (Rejected e, w0)"
    and "property tasks (normalized (case arg of None \<Rightarrow> [] | Some a \<Rightarrow> a)) = Some h"
  shows "config env tasks cli arg w = ([LoadConfiguration], Pending, w0)"
  using assms by (simp add: config_def)

lemma eachTask_loads: "loads (fst (eachTask env cli args tn ns w)) \<le> 1"
proof (cases "args = None \<or> args = Some []")
  case True
  then show ?thesis
    by (auto simp: eachTask_def loads_def)
next
  case False
  then obtain a where a: "args = Some a" "a \<noteq> []"
    by (cases args) auto
  obtain r w0 where g: "getConfiguration env w = (r, w0)"
    by (cases "getConfiguration env w")
  show ?thesis
  proof (cases r)
    case (Resolved cfg)
    obtain tr r' w2
      where c: "chain (notPromise env) cli cfg tn ns (entries a) w0 = (tr, r', w2)"
      by (cases "chain (notPromise env) cli cfg tn ns (entries a) w0")
    have "loads tr = 0"
      using chain_loads [of "notPromise env" cli cfg tn ns "entries a" w0] c by simp
    then show ?thesis
      using a g Resolved c by (simp add: eachTask_def loads_def)
  next
    case (Rejected e)
    then show ?thesis
      using a g by (simp add: eachTask_def loads_def)
  next
    case Pending
    then show ?thesis
      using a g by (simp add: eachTask_def loads_def)
  qed
qed

lemma config_loads: "loads (fst (config env tasks cli arg w)) \<le> 1"
  by (auto simp: config_def Let_def loads_def filter_map comp_def
      split: option.splits prod.splits promise.splits completion.splits property.splits)

text \<open>
  C4: the handlers of a chain run from left to right. When the handlers of the entries
  before \<open>n\<close> have all resolved, they were called in the order of the list, and the
  function for \<open>n\<close> starts in the state they left. If it fails, by a rejected promise or by
  throwing, the chain is rejected with exactly that failure in the state it left, whatever
  entries follow: nothing is done for them. If its promise stays pending, so does the
  chain, and nothing is done for the entries that follow. If it resolves, the entries that
  follow are run from the state it left. A result that is not a promise counts as the
  promise that \<open>notPromise\<close> gives.
\<close>

theorem chain_in_order_until_first_failure:
  assumes "getConfiguration env w = (Resolved cfg, w0)" and "a \<noteq> []"
    and "entries a = ps @ n # qs"
    and "chain (notPromise env) cli cfg taskName namespace ps w0 = (tr, Resolved vs, w1)"
    and "task cli cfg taskName namespace n w1 = (tr1, c, w2)"
  shows "invoked tr = map normalized ps
    \<and> (invoked tr1 = [] \<or> invoked tr1 = [normalized n])
    \<and> (c = Return (Rejected e) \<or> c = Throw e
          \<or> (c = NotPromise \<and> notPromise env = Rejected e) \<longrightarrow>
         eachTask env cli (Some a) taskName namespace w
           = (LoadConfiguration # tr @ tr1, Rejected e, w2))
    \<and> (c = Return Pending \<or> (c = NotPromise \<and> notPromise env = Pending) \<longrightarrow>
         eachTask env cli (Some a) taskName namespace w
           = (LoadConfiguration # tr @ tr1, Pending, w2))
    \<and> (c = Return (Resolved v) \<or> (c = NotPromise \<and> notPromise env = Resolved v) \<longrightarrow>
         eachTask env cli (Some a) taskName namespace w
           = (case chain (notPromise env) cli cfg taskName namespace qs w2 of
                (tr2, r, w3) \<Rightarrow>
                  (LoadConfiguration # tr @ tr1 @ tr2,
                   map_promise (\<lambda>ws. Array (vs @ v # ws)) r, w3)))"
proof -
  have order: "invoked tr = map normalized ps"
    using assms(4) by (rule chain_resolved_invoked)
  have one: "invoked tr1 = [] \<or> invoked tr1 = [normalized n]"
    using task_invoked [of cli cfg taskName namespace n w1] assms(5) by simp
  have run: "eachTask env cli (Some a) taskName namespace w =
      (case chain (notPromise env) cli cfg taskName namespace (n # qs) w1 of
         (tr', r, w') \<Rightarrow>
           (LoadConfiguration # tr @ tr', map_promise (\<lambda>ws. Array (vs @ ws)) r, w'))"
    using assms(4)
    by (simp add: eachTask_loaded [OF assms(1,2)] assms(3) chain_append promise.map_comp comp_def
        split: prod.splits)
  have failed: "c = Return (Rejected e) \<or> c = Throw e
          \<or> (c = NotPromise \<and> notPromise env = Rejected e) \<longrightarrow>
         eachTask env cli (Some a) taskName namespace w
           = (LoadConfiguration # tr @ tr1, Rejected e, w2)"
    using assms(5) by (auto simp: run chain_Cons settle_def)
  have pending: "c = Return Pending \<or> (c = NotPromise \<and> notPromise env = Pending) \<longrightarrow>
         eachTask env cli (Some a) taskName namespace w
           = (LoadConfiguration # tr @ tr1, Pending, w2)"
    using assms(5) by (auto simp: run chain_Cons settle_def)
  have resolved:
    "c = Return (Resolved v) \<or> (c = NotPromise \<and> notPromise env = Resolved v) \<longrightarrow>
         eachTask env cli (Some a) taskName namespace w
           = (case chain (notPromise env) cli cfg taskName namespace qs w2 of
                (tr2, r, w3) \<Rightarrow>
                  (LoadConfiguration # tr @ tr1 @ tr2,
                   map_promise (\<lambda>ws. Array (vs @ v # ws)) r, w3))"
    using assms(5)
    by (auto simp: run chain_Cons settle_def promise.map_comp comp_def split: prod.splits)
  from order one failed pending resolved show ?thesis
    by (intro conjI)
qed

lemma core_failing_loaded: "getConfiguration core_failing 0 = (Resolved 0, 0)"
  by (simp add: core_failing_def succeeding_def)

lemma no_options: "getTargets (options []) ds s = ds"
  by (simp add: getTargets_absent options_def)

lemma core_failing_config:
  "chain np (options []) 0 ''build'' (Obj (TASKS_build core_failing)) [''config''] 0
      = ([Effect (Call ''logger.log'' [Str ''Running task:'', Str ''build:config'']),
          Invoke ''config'',
          Effect (Call ''config.writeConfiguration'' [Str ''client'']),
          Effect (Call ''config.writeConfiguration'' [Str ''server''])],
         Resolved [Array [Undefined, Undefined]], 2)"
  by (simp add: Let_def chain_def task_def normalized_def property_def settle_def
      TASKS_build_def build_config_def
      no_options fanOut_def core_failing_def succeeding_def promise_all_def numeral_2_eq_2)

lemma core_failing_core:
  "task (options []) 0 ''build'' (Obj (TASKS_build core_failing)) ''core'' w
      = ([Effect (Call ''logger.log'' [Str ''Running task:'', Str ''build:core'']),
          Invoke ''core'',
          Effect (Call ''core.buildFiles'' [Str ''dist'']),
          Effect (Call ''core.buildFiles'' [Str ''dist-dev''])],
         Return (Rejected (Failure 2)), Suc (Suc w))"
  by (simp add: Let_def task_def normalized_def property_def TASKS_build_def build_core_def
      no_options fanOut_def core_failing_def succeeding_def promise_all_def)

theorem chain_in_order_until_first_failure_witness:
  "eachTask core_failing (options []) (Some ''config,core,themes'') ''build''
       (Obj (TASKS_build core_failing)) 0
     = ([LoadConfiguration,
         Effect (Call ''logger.log'' [Str ''Running task:'', Str ''build:config'']),
         Invoke ''config'',
         Effect (Call ''config.writeConfiguration'' [Str ''client'']),
         Effect (Call ''config.writeConfiguration'' [Str ''server'']),
         Effect (Call ''logger.log'' [Str ''Running task:'', Str ''build:core'']),
         Invoke ''core'',
         Effect (Call ''core.buildFiles'' [Str ''dist'']),
         Effect (Call ''core.buildFiles'' [Str ''dist-dev''])],
        Rejected (Failure 2), 4)"
proof -
  have a: "''config,core,themes'' \<noteq> []"
    by simp
  have e: "entries ''config,core,themes'' = [''config''] @ ''core'' # [''themes'']"
    by (simp add: entries_def isSpace_def Let_def)
  have t: "task (options []) 0 ''build'' (Obj (TASKS_build core_failing)) ''core'' 2
      = ([Effect (Call ''logger.log'' [Str ''Running task:'', Str ''build:core'']),
          Invoke ''core'',
          Effect (Call ''core.buildFiles'' [Str ''dist'']),
          Effect (Call ''core.buildFiles'' [Str ''dist-dev''])],
         Return (Rejected (Failure 2)), 4)"
    by (simp add: core_failing_core)
  from chain_in_order_until_first_failure
    [OF core_failing_loaded a e core_failing_config t, where e = "Failure 2"]
  show ?thesis by simp
qed

section \<open>The default build\<close>
















lemma succeeding_loaded: "getConfiguration succeeding 0 = (Resolved 0, 0)"
  by (simp add: succeeding_def)

lemma succeeding_own:
  "property (TASKS_build succeeding @ extra) ''config'' = Some (Own (build_config succeeding))"
  "property (TASKS_build succeeding @ extra) ''core'' = Some (Own (build_core succeeding))"
  "property (TASKS_build succeeding @ extra) ''themes'' = Some (Own (build_themes succeeding))"
  "property (TASKS_build succeeding @ extra) ''manifest''
     = Some (Own (build_manifest succeeding))"
  "property (TASKS_build succeeding @ extra) ''packages''
     = Some (Own (build_packages succeeding))"
  by (simp_all add: property_def TASKS_build_def)

lemma succeeding_handlers:
  "build_config succeeding (options []) 0 w
     = ([Call ''config.writeConfiguration'' [Str ''client''],
         Call ''config.writeConfiguration'' [Str ''server'']],
        Return (Resolved (Array [Undefined, Undefined])), Suc (Suc w))"
  "build_core succeeding (options []) 0 w
     = ([Call ''core.buildFiles'' [Str ''dist''], Call ''core.buildFiles'' [Str ''dist-dev'']],
        Return (Resolved (Array [Undefined, Undefined])), Suc (Suc w))"
  "build_themes succeeding (options []) 0 w
     = ([Call ''themes.buildAll'' []], Return (Resolved Undefined), Suc w)"
  "build_manifest succeeding (options []) 0 w
     = ([Call ''manifest.writeManifest'' [Str ''dist''],
         Call ''manifest.writeManifest'' [Str ''dist-dev''],
         Call ''manifest.writeManifest'' [Str ''server'']],
        Return (Resolved (Array [Undefined, Undefined, Undefined])), Suc (Suc (Suc w)))"
  "build_packages succeeding (options []) 0 w
     = ([Call ''packages.buildPackages'' [Str ''dist''],
         Call ''packages.buildPackages'' [Str ''dist-dev'']],
        Return (Resolved (Array [Undefined, Undefined])), Suc (Suc w))"
  by (simp_all add: build_config_def build_core_def build_themes_def build_manifest_def
      build_packages_def no_options fanOut_def single_def settle_def succeeding_def
      promise_all_def)





section \<open>Unknown names\<close>

lemma eachTask_not_resolved:
  assumes "a \<noteq> []" and "m \<in> set (entries a)" and "\<not> P m"
    and step: "\<And>cfg n w tr c w1 v. task cli cfg tn ns n w = (tr, c, w1) \<Longrightarrow>
      settle (notPromise env) c = Resolved v \<Longrightarrow> P n"
  shows "fst (snd (eachTask env cli (Some a) tn ns w)) \<noteq> Resolved v"
proof -
  obtain r w0 where g: "getConfiguration env w = (r, w0)"
    by (cases "getConfiguration env w")
  show ?thesis
  proof (cases r)
    case (Resolved cfg)
    obtain tr r' w2
      where c: "chain (notPromise env) cli cfg tn ns (entries a) w0 = (tr, r', w2)"
      by (cases "chain (notPromise env) cli cfg tn ns (entries a) w0")
    have "r' \<noteq> Resolved vs" for vs
    proof
      assume "r' = Resolved vs"
      with c have "chain (notPromise env) cli cfg tn ns (entries a) w0 = (tr, Resolved vs, w2)"
        by simp
      then have "\<forall>n\<in>set (entries a). P n"
        by (rule chain_resolved_all [rotated]) (rule step)
      with assms(2,3) show False
        by blast
    qed
    then have "map_promise Array r' \<noteq> Resolved v"
      by (cases r') auto
    then show ?thesis
      using assms(1) g Resolved c by (simp add: eachTask_def)
  next
    case (Rejected e)
    then show ?thesis
      using assms(1) g by (simp add: eachTask_def)
  next
    case Pending
    then show ?thesis
      using assms(1) g by (simp add: eachTask_def)
  qed
qed

lemma eachTask_unknown_not_resolved:
  assumes "a \<noteq> []" and "m \<in> set (entries a)" and "property ns (normalized m) = None"
  shows "fst (snd (eachTask env cli (Some a) tn (Obj ns) w)) \<noteq> Resolved v"
  using assms(1,2)
proof (rule eachTask_not_resolved [where P = "\<lambda>n. property ns (normalized n) \<noteq> None"])
  show "\<not> property ns (normalized m) \<noteq> None"
    using assms(3) by simp
  show "property ns (normalized n) \<noteq> None"
    if "task cli cfg tn (Obj ns) n w = (tr, c, w1)"
      and "settle (notPromise env) c = Resolved v" for cfg n w tr c w1 v
    using that by (rule task_resolved_registered)
qed

lemma generate_unknown_not_resolved:
  assumes "a \<noteq> []" and "m \<in> set (entries a)"
    and "property (generators env) (normalized m) = None"
  shows "fst (snd (generate env (TASKS_generate env) cli (Some a) w)) \<noteq> Resolved v"
  unfolding generate_def using assms(1,2)
proof (rule eachTask_not_resolved
    [where P = "\<lambda>n. property (generators env) (normalized n) \<noteq> None"])
  show "\<not> property (generators env) (normalized m) \<noteq> None"
    using assms(3) by simp
  show "property (generators env) (normalized n) \<noteq> None"
    if "task cli cfg ''generate'' (Fn (TASKS_generate env)) n w = (tr, c, w1)"
      and "settle (notPromise env) c = Resolved v" for cfg n w tr c w1 v
    using that by (rule generate_resolved_registered)
qed

lemma eachTask_unknown:
  assumes g: "getConfiguration env w = (Resolved cfg, w0)" and a: "a \<noteq> []"
    and e: "entries a = ps @ n # qs"
    and c: "chain (notPromise env) cli cfg taskName (Obj ns) ps w0 = (tr, Resolved vs, w1)"
    and u: "property ns (normalized n) = None"
  shows "eachTask env cli (Some a) taskName (Obj ns) w
          = (LoadConfiguration # tr,
             Rejected (Message (''Invalid task: '' @ normalized n)), w1)"
proof -
  have t: "task cli cfg taskName (Obj ns) n w1
      = ([], Return (Rejected (Message (''Invalid task: '' @ normalized n))), w1)"
    using u by (simp add: task_def)
  show ?thesis
    using c t by (simp add: eachTask_loaded [OF g a] e chain_append chain_Cons settle_def)
qed

lemma generate_unknown:
  assumes g: "getConfiguration env w = (Resolved cfg, w0)" and a: "a \<noteq> []"
    and e: "entries a = ps @ n # qs"
    and c: "chain (notPromise env) cli cfg ''generate'' (Fn (TASKS_generate env)) ps w0
        = (tr, Resolved vs, w1)"
    and u: "property (generators env) (normalized n) = None"
  shows "generate env (TASKS_generate env) cli (Some a) w
          = (LoadConfiguration # tr @ [Invoke (normalized n)],
             Rejected (Message (''Invalid generator: '' @ normalized n)), w1)"
proof -
  have t: "task cli cfg ''generate'' (Fn (TASKS_generate env)) n w1
      = ([Invoke (normalized n)],
         Return (Rejected (Message (''Invalid generator: '' @ normalized n))), w1)"
    using u by (simp add: task_def TASKS_generate_def Let_def)
  show ?thesis
    unfolding generate_def
    using c t by (simp add: eachTask_loaded [OF g a] e chain_append chain_Cons settle_def)
qed

lemma config_unknown:
  "property tasks (normalized (case arg of None \<Rightarrow> [] | Some x \<Rightarrow> x)) = None \<Longrightarrow>
     config env tasks cli arg w =
       ([], Rejected (Message (''Invalid action: ''
              @ normalized (case arg of None \<Rightarrow> [] | Some x \<Rightarrow> x))), w)"
  by (simp add: config_def)

text \<open>
  C6, as stated: whenever the normalized name of an entry is not registered, the chain
  fails with an error that names it. It fails when an earlier handler fails: for
  \<open>core,bogus\<close>, with the build of the core files failing, the chain is rejected with that
  failure and \<open>bogus\<close> is never looked up.
\<close>

theorem earlier_failure_hides_unknown_task:
  "property (TASKS_build core_failing) (normalized ''bogus'') = None
   \<and> eachTask core_failing (options []) (Some ''core,bogus'') ''build''
       (Obj (TASKS_build core_failing)) 0
     = ([LoadConfiguration,
         Effect (Call ''logger.log'' [Str ''Running task:'', Str ''build:core'']),
         Invoke ''core'',
         Effect (Call ''core.buildFiles'' [Str ''dist'']),
         Effect (Call ''core.buildFiles'' [Str ''dist-dev''])],
        Rejected (Failure 2), 2)"
proof -
  have "property (TASKS_build core_failing) (normalized ''bogus'') = None"
    by (simp add: property_def TASKS_build_def normalized_def indexOf_absent inheritedNames_def)
  moreover have "entries ''core,bogus'' = [''core'', ''bogus'']"
    by (simp add: entries_def isSpace_def Let_def)
  ultimately show ?thesis
    by (simp add: eachTask_loaded [OF core_failing_loaded] chain_Cons core_failing_core
        settle_def numeral_2_eq_2)
qed

text \<open>
  C6, amended: the name of an entry is normalized by replacing its first hyphen with an
  underscore, and looked up by exact match when the chain reaches the entry. When the
  handlers of all earlier entries have resolved and the namespace object has no property
  of the normalized name, neither its own nor one that every object inherits, the chain
  is rejected with \<open>Invalid task:\<close> and that name, and no handler is called for it; for
  \<open>generate\<close>, whose names are those of the generators, the chain is rejected with
  \<open>Invalid generator:\<close> and that name. A chain with such an entry never resolves.
  \<open>eachTask\<close> and \<open>config\<close> load the configuration at most once, and \<open>config\<close> rejects an
  action of which its namespace has no property with \<open>Invalid action:\<close> and the name,
  without loading the configuration.
\<close>

theorem unknown_task_rejected:
  "(getConfiguration env w = (Resolved cfg, w0) \<and> a \<noteq> [] \<and> entries a = ps @ n # qs
      \<and> chain (notPromise env) cli cfg taskName (Obj ns) ps w0 = (tr, Resolved vs, w1)
      \<and> property ns (normalized n) = None \<longrightarrow>
        eachTask env cli (Some a) taskName (Obj ns) w
          = (LoadConfiguration # tr,
             Rejected (Message (''Invalid task: '' @ normalized n)), w1))
    \<and> (getConfiguration env w = (Resolved cfg, w0) \<and> a \<noteq> [] \<and> entries a = ps @ n # qs
      \<and> chain (notPromise env) cli cfg ''generate'' (Fn (TASKS_generate env)) ps w0
          = (tr, Resolved vs, w1)
      \<and> property (generators env) (normalized n) = None \<longrightarrow>
        generate env (TASKS_generate env) cli (Some a) w
          = (LoadConfiguration # tr @ [Invoke (normalized n)],
             Rejected (Message (''Invalid generator: '' @ normalized n)), w1))
    \<and> (CHR ''-'' \<notin> set p \<longrightarrow> normalized (p @ CHR ''-'' # q) = p @ CHR ''_'' # q)
    \<and> (CHR ''-'' \<notin> set s \<longrightarrow> normalized s = s)
    \<and> (a \<noteq> [] \<and> m \<in> set (entries a) \<and> property ns (normalized m) = None \<longrightarrow>
          fst (snd (eachTask env cli (Some a) taskName (Obj ns) w)) \<noteq> Resolved v)
    \<and> (a \<noteq> [] \<and> m \<in> set (entries a) \<and> property (generators env) (normalized m) = None \<longrightarrow>
          fst (snd (generate env (TASKS_generate env) cli (Some a) w)) \<noteq> Resolved v)
    \<and> loads (fst (eachTask env cli args taskName namespace w)) \<le> 1
    \<and> loads (fst (config env tasks cli arg w)) \<le> 1
    \<and> (property tasks (normalized (case arg of None \<Rightarrow> [] | Some x \<Rightarrow> x)) = None \<longrightarrow>
          config env tasks cli arg w =
            ([], Rejected (Message (''Invalid action: ''
                   @ normalized (case arg of None \<Rightarrow> [] | Some x \<Rightarrow> x))), w))"
proof -
  have run: "getConfiguration env w = (Resolved cfg, w0) \<and> a \<noteq> [] \<and> entries a = ps @ n # qs
      \<and> chain (notPromise env) cli cfg taskName (Obj ns) ps w0 = (tr, Resolved vs, w1)
      \<and> property ns (normalized n) = None \<longrightarrow>
        eachTask env cli (Some a) taskName (Obj ns) w
          = (LoadConfiguration # tr,
             Rejected (Message (''Invalid task: '' @ normalized n)), w1)"
    by (intro impI, elim conjE) (rule eachTask_unknown)
  have gen: "getConfiguration env w = (Resolved cfg, w0) \<and> a \<noteq> [] \<and> entries a = ps @ n # qs
      \<and> chain (notPromise env) cli cfg ''generate'' (Fn (TASKS_generate env)) ps w0
          = (tr, Resolved vs, w1)
      \<and> property (generators env) (normalized n) = None \<longrightarrow>
        generate env (TASKS_generate env) cli (Some a) w
          = (LoadConfiguration # tr @ [Invoke (normalized n)],
             Rejected (Message (''Invalid generator: '' @ normalized n)), w1)"
    by (intro impI, elim conjE) (rule generate_unknown)
  have first: "CHR ''-'' \<notin> set p \<longrightarrow> normalized (p @ CHR ''-'' # q) = p @ CHR ''_'' # q"
    by (simp add: normalized_def replace_first_first)
  have none: "CHR ''-'' \<notin> set s \<longrightarrow> normalized s = s"
    by (simp add: normalized_def replace_first_none)
  have never: "a \<noteq> [] \<and> m \<in> set (entries a) \<and> property ns (normalized m) = None \<longrightarrow>
      fst (snd (eachTask env cli (Some a) taskName (Obj ns) w)) \<noteq> Resolved v"
    using eachTask_unknown_not_resolved [of a m ns env cli taskName w v] by blast
  have never_gen:
    "a \<noteq> [] \<and> m \<in> set (entries a) \<and> property (generators env) (normalized m) = None \<longrightarrow>
      fst (snd (generate env (TASKS_generate env) cli (Some a) w)) \<noteq> Resolved v"
    using generate_unknown_not_resolved [of a m env cli w v] by blast
  have unknown:
    "property tasks (normalized (case arg of None \<Rightarrow> [] | Some x \<Rightarrow> x)) = None \<longrightarrow>
          config env tasks cli arg w =
            ([], Rejected (Message (''Invalid action: ''
                   @ normalized (case arg of None \<Rightarrow> [] | Some x \<Rightarrow> x))), w)"
    by (simp add: config_unknown)
  from run gen first none never never_gen eachTask_loads config_loads unknown show ?thesis
    by (intro conjI)
qed

lemma succeeding_core:
  "chain np (options []) 0 ''build'' (Obj (TASKS_build succeeding)) [''core''] 0
      = ([Effect (Call ''logger.log'' [Str ''Running task:'', Str ''build:core'']),
          Invoke ''core'',
          Effect (Call ''core.buildFiles'' [Str ''dist'']),
          Effect (Call ''core.buildFiles'' [Str ''dist-dev''])],
         Resolved [Array [Undefined, Undefined]], 2)"
  using succeeding_own(2) [of "[]"]
  by (simp add: chain_Cons chain_Nil task_def Let_def normalized_def succeeding_handlers
      settle_def numeral_2_eq_2)

theorem unknown_task_rejected_witness:
  "eachTask succeeding (options []) (Some ''core,no-such-task'') ''build''
       (Obj (TASKS_build succeeding)) 0
     = ([LoadConfiguration,
         Effect (Call ''logger.log'' [Str ''Running task:'', Str ''build:core'']),
         Invoke ''core'',
         Effect (Call ''core.buildFiles'' [Str ''dist'']),
         Effect (Call ''core.buildFiles'' [Str ''dist-dev''])],
        Rejected (Message ''Invalid task: no_such-task''), 2)
   \<and> generate succeeding (TASKS_generate succeeding) (options []) (Some ''apache-vhost'') 0
     = ([LoadConfiguration, Invoke ''apache_vhost''],
        Rejected (Message ''Invalid generator: apache_vhost''), 0)
   \<and> config succeeding (TASKS_config succeeding) (options []) (Some ''bogus_action'') 0
     = ([], Rejected (Message ''Invalid action: bogus_action''), 0)"
proof -
  have a: "''core,no-such-task'' \<noteq> []"
    by simp
  have e: "entries ''core,no-such-task'' = [''core''] @ ''no-such-task'' # []"
    by (simp add: entries_def isSpace_def Let_def)
  have n: "normalized ''no-such-task'' = ''no_such-task''"
    by (simp add: normalized_def)
  have u: "property (TASKS_build succeeding) (normalized ''no-such-task'') = None"
    by (simp add: n property_def TASKS_build_def indexOf_absent inheritedNames_def)
  have a': "''apache-vhost'' \<noteq> []"
    by simp
  have e': "entries ''apache-vhost'' = [] @ ''apache-vhost'' # []"
    by (simp add: entries_def isSpace_def Let_def)
  have n': "normalized ''apache-vhost'' = ''apache_vhost''"
    by (simp add: normalized_def)
  have u': "property (generators succeeding) (normalized ''apache-vhost'') = None"
    by (simp add: n' property_def succeeding_def indexOf_absent inheritedNames_def)
  have c': "chain (notPromise succeeding) (options []) 0 ''generate''
      (Fn (TASKS_generate succeeding)) [] 0 = ([], Resolved [], 0)"
    by (rule chain_Nil)
  have b: "normalized (case Some ''bogus_action'' of None \<Rightarrow> [] | Some x \<Rightarrow> x)
      = ''bogus_action''"
    by (simp add: normalized_def)
  have k: "property (TASKS_config succeeding)
      (normalized (case Some ''bogus_action'' of None \<Rightarrow> [] | Some x \<Rightarrow> x)) = None"
    unfolding b by (simp add: property_def TASKS_config_def indexOf_absent inheritedNames_def)
  have task: "eachTask succeeding (options []) (Some ''core,no-such-task'') ''build''
       (Obj (TASKS_build succeeding)) 0
     = ([LoadConfiguration,
         Effect (Call ''logger.log'' [Str ''Running task:'', Str ''build:core'']),
         Invoke ''core'',
         Effect (Call ''core.buildFiles'' [Str ''dist'']),
         Effect (Call ''core.buildFiles'' [Str ''dist-dev''])],
        Rejected (Message ''Invalid task: no_such-task''), 2)"
    using unknown_task_rejected [where env = succeeding and w = 0 and cfg = 0 and ?w0.0 = 0
        and a = "''core,no-such-task''" and ps = "[''core'']" and n = "''no-such-task''"
        and qs = "[]" and cli = "options []" and taskName = "''build''"
        and ns = "TASKS_build succeeding" and ?w1.0 = 2, THEN conjunct1]
      succeeding_loaded a e succeeding_core u
    by (simp add: n)
  have gen: "generate succeeding (TASKS_generate succeeding) (options [])
       (Some ''apache-vhost'') 0
     = ([LoadConfiguration, Invoke ''apache_vhost''],
        Rejected (Message ''Invalid generator: apache_vhost''), 0)"
    using unknown_task_rejected [where env = succeeding and w = 0 and cfg = 0 and ?w0.0 = 0
        and a = "''apache-vhost''" and ps = "[]" and n = "''apache-vhost''"
        and qs = "[]" and cli = "options []" and tr = "[]" and vs = "[]" and ?w1.0 = 0,
        THEN conjunct2, THEN conjunct1]
      succeeding_loaded a' e' c' u'
    by (simp add: n')
  have act: "config succeeding (TASKS_config succeeding) (options []) (Some ''bogus_action'') 0
     = ([], Rejected (Message ''Invalid action: bogus_action''), 0)"
    using unknown_task_rejected [where env = succeeding and w = 0 and cli = "options []"
        and tasks = "TASKS_config succeeding" and arg = "Some ''bogus_action''",
        THEN conjunct2, THEN conjunct2, THEN conjunct2, THEN conjunct2, THEN conjunct2,
        THEN conjunct2, THEN conjunct2, THEN conjunct2] k
    by (simp add: normalized_def)
  from task gen act show ?thesis
    by (intro conjI)
qed

section \<open>Failure to load the configuration\<close>

text \<open>
  C1, on collaborators that cannot load the configuration: \<open>eachTask\<close>, which \<open>build\<close> and
  \<open>generate\<close> use, is rejected with the failure of the load and calls no handler; the
  promise of \<open>config\<close> with a known action calls no handler either, and is never settled.
\<close>

theorem config_load_failure_never_settles:
  "config unloadable (TASKS_config unloadable) (options []) (Some ''get'') 0
     = ([LoadConfiguration], Pending, 0)
   \<and> build unloadable (TASKS_build unloadable) (options []) (Some ''core'') 0
     = ([LoadConfiguration], Rejected (Failure 1), 0)"
proof -
  have g: "getConfiguration unloadable 0 = (Rejected (Failure 1), 0)"
    by (simp add: unloadable_def succeeding_def)
  have n: "normalized (case Some ''get'' of None \<Rightarrow> [] | Some a \<Rightarrow> a) = ''get''"
    by (simp add: normalized_def)
  have "\<exists>h. property (TASKS_config unloadable)
      (normalized (case Some ''get'' of None \<Rightarrow> [] | Some a \<Rightarrow> a)) = Some h"
    unfolding n by (simp add: property_def TASKS_config_def)
  then have c: "config unloadable (TASKS_config unloadable) (options []) (Some ''get'') 0
     = ([LoadConfiguration], Pending, 0)"
    using config_load_failure [OF g] by blast
  have b: "build unloadable (TASKS_build unloadable) (options []) (Some ''core'') 0
     = ([LoadConfiguration], Rejected (Failure 1), 0)"
    by (simp add: build_def truthy_def eachTask_load_failure [OF g])
  from c b show ?thesis ..
qed

end
